theory Spec2Isabelle
  imports Main "HOL-Library.Sublist"
begin

section \<open>Values and errors\<close>

text \<open>
  The Python values that reach the client's constructor and the cells of a result row:
  \<open>None\<close>, a string or an integer. \<open>truthy\<close> is Python's truth test on them.
\<close>

datatype pyval = NoneV | StrV string | IntV int

fun truthy :: "pyval \<Rightarrow> bool" where
  "truthy NoneV = False"
| "truthy (StrV s) = (s \<noteq> [])"
| "truthy (IntV n) = (n \<noteq> 0)"

text \<open>
  The exceptions of the module. \<open>TypeError\<close> and \<open>ValueError\<close> are raised by
  \<open>AioHive.__init__\<close> itself; \<open>AttributeError\<close> and \<open>KeyError\<close> are raised by the
  interpreter on \<open>None.split\<close> and on a missing dictionary key; \<open>ExternalError n\<close> is
  an exception number \<open>n\<close> raised by a collaborator (the XML parser, the aiohs2 transport).
\<close>

datatype error = TypeError | ValueError | AttributeError | KeyError | ExternalError nat

section \<open>Client construction: \<open>AioHive.__init__\<close>\<close>

text \<open>
  \<open>s.split(sep)\<close> for a non-empty separator: the pieces between the leftmost,
  non-overlapping occurrences of \<open>sep\<close>. Both call sites pass a literal separator
  (\<open>'://'\<close> and \<open>':'\<close>).
\<close>

fun split_from :: "string \<Rightarrow> string \<Rightarrow> string \<Rightarrow> string list" where
  "split_from sep cur [] = [cur]"
| "split_from sep cur (c # cs) =
     (if sep \<noteq> [] \<and> prefix sep (c # cs)
      then cur # split_from sep [] (drop (length sep - 1) cs)
      else split_from sep (cur @ [c]) cs)"

definition str_split :: "string \<Rightarrow> string \<Rightarrow> string list" where
  "str_split s sep = split_from sep [] s"

text \<open>\<open>uri.split('://')[-1].split(':')[0]\<close>\<close>

definition host_of_uri :: "string \<Rightarrow> string" where
  "host_of_uri uri = hd (str_split (last (str_split uri ''://'')) '':'')"

text \<open>
  A \<open>property\<close> element of the configuration document, as the loop reads it:
  \<open>res.findtext('name')\<close> and \<open>res.findtext('value')\<close>, each \<open>None\<close> when the child
  element is missing.
\<close>

type_synonym property = "string option \<times> string option"

text \<open>The arguments of \<open>aiohs2.Client(host=host, port=port)\<close>.\<close>

record client =
  cli_host :: pyval
  cli_port :: pyval

text \<open>
  The \<open>for ... else\<close> loop over \<open>cfg.iter('property')\<close>: the first element whose name
  is \<open>'hive.metastore.uris'\<close> decides the host and leaves the loop; the \<open>else\<close> branch
  runs when no element matched.
\<close>

fun find_host :: "property list \<Rightarrow> error + pyval" where
  "find_host [] = Inl ValueError"
| "find_host (res # rest) =
     (if fst res = Some ''hive.metastore.uris''
      then (case snd res of
              None \<Rightarrow> Inl AttributeError
            | Some uri \<Rightarrow> Inr (StrV (host_of_uri uri)))
      else find_host rest)"

text \<open>
  \<open>AioHive.__init__(host, config, port)\<close>. \<open>ET_parse config\<close> stands for
  \<open>ET.parse(config)\<close> followed by \<open>cfg.iter('property')\<close>: the property elements in
  document order, or the parser's exception. The result is \<open>Inr\<close> exactly when the
  constructor reaches \<open>aiohs2.Client(host=host, port=port)\<close>, with the arguments of that
  call; \<open>Inl e\<close> means that \<open>e\<close> was raised before it.
\<close>

definition AioHive_init ::
  "(pyval \<Rightarrow> error + property list) \<Rightarrow> pyval \<Rightarrow> pyval \<Rightarrow> pyval \<Rightarrow> error + client" where
  "AioHive_init ET_parse host config port =
     (if (host = NoneV \<and> config = NoneV) \<or> (truthy config \<and> truthy host)
      then Inl TypeError
      else if truthy config
      then (case ET_parse config of
              Inl e \<Rightarrow> Inl e
            | Inr props \<Rightarrow>
                (case find_host props of
                   Inl e \<Rightarrow> Inl e
                 | Inr h \<Rightarrow> Inr \<lparr>cli_host = h, cli_port = port\<rparr>))
      else Inr \<lparr>cli_host = host, cli_port = port\<rparr>)"

section \<open>Tables\<close>

text \<open>
  The pandas values the module builds. A \<open>frame\<close> is a \<open>pd.DataFrame\<close>: its column
  labels, its row index and its rows (one cell per column). The constructor
  \<open>pd.DataFrame(data, columns=columns)\<close> is called with \<open>None\<close>, with a non-empty list
  of rows, or with the cached empty frame.
\<close>

type_synonym row = "pyval list"

record frame =
  df_columns :: "string list"
  df_index :: "int list"
  df_rows :: "row list"

datatype data = NoData | RowData "row list" | FrameData frame

text \<open>The cell of row \<open>r\<close> (labelled by \<open>cs\<close>) under label \<open>c\<close>; a missing label gives \<open>None\<close>.\<close>

definition cell_of :: "string list \<Rightarrow> row \<Rightarrow> string \<Rightarrow> pyval" where
  "cell_of cs r c = (case map_of (zip cs r) c of None \<Rightarrow> NoneV | Some v \<Rightarrow> v)"

text \<open>
  Modelled from the spec: the Table capability (pandas, not part of the repository),
  a table is constructed from rows and column labels. No data gives a zero-row frame;
  a list of rows gets the index \<open>0, 1, ..., n - 1\<close>; a frame given as data keeps its index and has its
  rows re-labelled by the requested columns.
\<close>

definition DataFrame :: "data \<Rightarrow> string list \<Rightarrow> frame" where
  "DataFrame d cols =
     (case d of
        NoData \<Rightarrow> \<lparr>df_columns = cols, df_index = [], df_rows = []\<rparr>
      | RowData rs \<Rightarrow> \<lparr>df_columns = cols, df_index = map int [0..<length rs], df_rows = rs\<rparr>
      | FrameData f \<Rightarrow>
          \<lparr>df_columns = cols, df_index = df_index f,
           df_rows = map (\<lambda>r. map (cell_of (df_columns f) r) cols) (df_rows f)\<rparr>)"

text \<open>\<open>len(data)\<close>: the length of the row index.\<close>

definition frame_len :: "frame \<Rightarrow> nat" where
  "frame_len d = length (df_index d)"

text \<open>\<open>data.index += k\<close>\<close>

definition index_add :: "frame \<Rightarrow> int \<Rightarrow> frame" where
  "index_add d k = d\<lparr>df_index := map (\<lambda>i. i + k) (df_index d)\<rparr>"

text \<open>\<open>data[:0].copy()\<close>: the zero-row slice, with the same columns.\<close>

definition slice0 :: "frame \<Rightarrow> frame" where
  "slice0 d = d\<lparr>df_index := take 0 (df_index d), df_rows := take 0 (df_rows d)\<rparr>"

text \<open>\<open>data.empty\<close>: pandas reports a frame as empty when any of its axes has length 0.\<close>

definition frame_empty :: "frame \<Rightarrow> bool" where
  "frame_empty d = (df_index d = [] \<or> df_columns d = [])"

text \<open>
  Modelled from the spec: the Table capability's concatenation (\<open>pd.concat\<close>) of tables
  that carry the same columns, used to state what the chunks add up to. Concatenating
  no table at all is an error.
\<close>

fun pd_concat :: "frame list \<Rightarrow> error + frame" where
  "pd_concat [] = Inl ValueError"
| "pd_concat (d # ds) =
     Inr \<lparr>df_columns = df_columns d,
          df_index = concat (map df_index (d # ds)),
          df_rows = concat (map df_rows (d # ds))\<rparr>"

section \<open>The remote cursor\<close>

text \<open>
  A page is what one \<open>cur.fetch\<close> returns: a list of rows, possibly empty, or \<open>None\<close>.
  \<open>page_or p alt\<close> is the Python expression \<open>p or alt\<close>: an absent or empty page is falsy.
\<close>

type_synonym page = "row list option"

fun page_or :: "page \<Rightarrow> data \<Rightarrow> data" where
  "page_or None alt = alt"
| "page_or (Some []) alt = alt"
| "page_or (Some (r # rs)) alt = RowData (r # rs)"

fun page_rows :: "page \<Rightarrow> row list" where
  "page_rows None = []"
| "page_rows (Some rs) = rs"

text \<open>
  The aiohs2 cursor is not part of the repository. \<open>remote\<close> fixes how it answers during
  one call of the client: whether \<open>cli.cursor()\<close>, \<open>cur.execute\<close> and \<open>cur.close\<close> raise,
  what \<open>cur.getSchema()\<close> returns (one entry per column description \<open>nfo\<close>, holding
  \<open>nfo['columnName']\<close> or \<open>None\<close> when the key is missing), and the outcomes of the
  successive page fetches.
\<close>

record remote =
  on_cursor :: "error option"
  on_execute :: "error option"
  on_getSchema :: "error + string option list"
  on_fetch :: "(error + page) list"
  on_close :: "error option"

text \<open>
  What the client does to the cursor, in order. \<open>EvClose\<close> is \<open>yield from cur.close()\<close>:
  the close coroutine is run. \<open>EvCloseUnawaited\<close> is the bare call \<open>cur.close()\<close>: the
  coroutine object is created and dropped, its body never runs.
\<close>

datatype event =
  EvCursor | EvExecute string | EvGetSchema | EvFetch int | EvClose | EvCloseUnawaited

text \<open>\<open>[nfo['columnName'] for nfo in schema]\<close>\<close>

fun column_names :: "string option list \<Rightarrow> error + string list" where
  "column_names [] = Inr []"
| "column_names (nfo # schema) =
     (case nfo of
        None \<Rightarrow> Inl KeyError
      | Some c \<Rightarrow> (case column_names schema of Inl e \<Rightarrow> Inl e | Inr cs \<Rightarrow> Inr (c # cs)))"

text \<open>
  The three lines that \<open>fetch\<close> and \<open>iter\<close> share at the head of their \<open>try\<close> block:
  \<open>cur.execute(hql)\<close>, \<open>cur.getSchema()\<close> and the column index. The result is the events
  and either the exception or the columns.
\<close>

definition execute_schema :: "remote \<Rightarrow> string \<Rightarrow> event list \<times> (error + string list)" where
  "execute_schema r hql =
     (case on_execute r of
        Some e \<Rightarrow> ([EvExecute hql], Inl e)
      | None \<Rightarrow>
          (case on_getSchema r of
             Inl e \<Rightarrow> ([EvExecute hql, EvGetSchema], Inl e)
           | Inr schema \<Rightarrow> ([EvExecute hql, EvGetSchema], column_names schema)))"

text \<open>
  \<open>finally: yield from cur.close()\<close> after a \<open>try\<close> block that produced \<open>res\<close>: the
  close is run; an exception it raises replaces whatever the block produced.
\<close>

definition finally_close :: "remote \<Rightarrow> event list \<times> (error + 'a) \<Rightarrow> event list \<times> (error + 'a)" where
  "finally_close r body =
     (fst body @ [EvClose], case on_close r of Some e \<Rightarrow> Inl e | None \<Rightarrow> snd body)"

section \<open>\<open>AioHive.execute\<close> and \<open>AioHive.fetch\<close>\<close>

definition execute_body :: "remote \<Rightarrow> string \<Rightarrow> event list \<times> (error + unit)" where
  "execute_body r request =
     ([EvExecute request], case on_execute r of Some e \<Rightarrow> Inl e | None \<Rightarrow> Inr ())"

definition AioHive_execute :: "remote \<Rightarrow> string \<Rightarrow> event list \<times> (error + unit)" where
  "AioHive_execute r request =
     (case on_cursor r of
        Some e \<Rightarrow> ([EvCursor], Inl e)
      | None \<Rightarrow>
          (let res = finally_close r (execute_body r request)
           in (EvCursor # fst res, snd res)))"

text \<open>The single \<open>cur.fetch(maxRows=chunk_size)\<close> of \<open>fetch\<close>: the first page of the cursor.\<close>

definition first_fetch :: "remote \<Rightarrow> error + page" where
  "first_fetch r = (case on_fetch r of [] \<Rightarrow> Inr None | p # _ \<Rightarrow> p)"

definition fetch_body :: "remote \<Rightarrow> string \<Rightarrow> int \<Rightarrow> event list \<times> (error + frame)" where
  "fetch_body r hql chunk_size =
     (case execute_schema r hql of
        (tr, Inl e) \<Rightarrow> (tr, Inl e)
      | (tr, Inr columns) \<Rightarrow>
          (case first_fetch r of
             Inl e \<Rightarrow> (tr @ [EvFetch chunk_size], Inl e)
           | Inr p \<Rightarrow> (tr @ [EvFetch chunk_size], Inr (DataFrame (page_or p NoData) columns))))"

definition AioHive_fetch :: "remote \<Rightarrow> string \<Rightarrow> int \<Rightarrow> event list \<times> (error + frame)" where
  "AioHive_fetch r hql chunk_size =
     (case on_cursor r of
        Some e \<Rightarrow> ([EvCursor], Inl e)
      | None \<Rightarrow>
          (let res = finally_close r (fetch_body r hql chunk_size)
           in (EvCursor # fst res, snd res)))"

section \<open>\<open>AioHive.iter\<close>: the chunk sequence\<close>

text \<open>The class \<open>local\<close>: the running row offset and the cached empty frame.\<close>

record local =
  local_offset :: int
  local_empty :: "frame option"

text \<open>
  \<open>to_frame(chunk_co)\<close>, run on the outcome of \<open>yield from chunk_co\<close>. An exception of
  the page fetch leaves the coroutine at once, with \<open>local\<close> untouched. Otherwise the
  frame is built from the page, or from \<open>local.empty\<close> when the page is falsy, its index
  is shifted by \<open>local.offset\<close>, the offset grows by the frame's length, and
  \<open>local.empty\<close> is set if it was \<open>None\<close>.
\<close>

definition to_frame :: "string list \<Rightarrow> error + page \<Rightarrow> local \<Rightarrow> (error + frame) \<times> local" where
  "to_frame columns chunk l =
     (case chunk of
        Inl e \<Rightarrow> (Inl e, l)
      | Inr p \<Rightarrow>
          (let data = DataFrame (page_or p (case local_empty l of
                                              None \<Rightarrow> NoData
                                            | Some t \<Rightarrow> FrameData t)) columns;
               data = index_add data (local_offset l);
               l = l\<lparr>local_offset := local_offset l + int (frame_len data)\<rparr>;
               l = (if local_empty l = None then l\<lparr>local_empty := Some (slice0 data)\<rparr> else l)
           in (Inr data, l)))"

text \<open>
  The generator \<open>closing()\<close> is not started by the call that creates it, is suspended at
  its \<open>yield\<close> after each item, and is finished once its body has been left.
\<close>

datatype gen_status = NotStarted | Suspended | Finished

text \<open>
  One invocation of \<open>iter\<close> after its construction: the closure variables \<open>columns\<close> and
  \<open>local\<close>, what is left of \<open>chunks = cur.iter(maxRows=chunk_size)\<close> (the page-fetch
  coroutines not yet handed out, each with the outcome it has when driven), the status
  of the generator \<open>closing()\<close>, and the events on the cursor so far.
\<close>

record iter_state =
  it_columns :: "string list"
  it_maxRows :: int
  it_chunks :: "(error + page) list"
  it_status :: gen_status
  it_local :: local
  it_trace :: "event list"

text \<open>
  \<open>AioHive.iter(hql, chunk_size)\<close> up to \<open>return closing()\<close>. An exception of
  \<open>cli.cursor()\<close> is raised before the \<open>try\<close>; an exception inside the \<open>try\<close> reaches
  \<open>except: cur.close(); raise\<close>, where the close coroutine is created and not run.
\<close>

definition AioHive_iter :: "remote \<Rightarrow> string \<Rightarrow> int \<Rightarrow> (event list \<times> error) + iter_state" where
  "AioHive_iter r hql chunk_size =
     (case on_cursor r of
        Some e \<Rightarrow> Inl ([EvCursor], e)
      | None \<Rightarrow>
          (case execute_schema r hql of
             (tr, Inl e) \<Rightarrow> Inl (EvCursor # tr @ [EvCloseUnawaited], e)
           | (tr, Inr columns) \<Rightarrow>
               Inr \<lparr>it_columns = columns, it_maxRows = chunk_size, it_chunks = on_fetch r,
                    it_status = NotStarted,
                    it_local = \<lparr>local_offset = 0, local_empty = None\<rparr>,
                    it_trace = EvCursor # tr\<rparr>))"

text \<open>
  \<open>next(gen)\<close> on the generator \<open>closing()\<close>: the loop takes the next coroutine of
  \<open>chunks\<close> and yields \<open>to_frame(chunk)\<close>; when \<open>chunks\<close> is used up the \<open>finally\<close> block
  calls \<open>cur.close()\<close> and the generator finishes. A finished generator only reports
  that it is finished.
\<close>

definition closing_next :: "iter_state \<Rightarrow> (error + page) option \<times> iter_state" where
  "closing_next s =
     (if it_status s = Finished then (None, s)
      else (case it_chunks s of
              [] \<Rightarrow> (None, s\<lparr>it_status := Finished, it_trace := it_trace s @ [EvCloseUnawaited]\<rparr>)
            | chunk # rest \<Rightarrow> (Some chunk, s\<lparr>it_status := Suspended, it_chunks := rest\<rparr>)))"

text \<open>
  The generator is finalised (\<open>gen.close()\<close>, or the interpreter dropping it): a
  suspended generator gets \<open>GeneratorExit\<close> at its \<open>yield\<close>, so the \<open>finally\<close> block
  runs; a generator that was never started runs none of its body.
\<close>

definition closing_close :: "iter_state \<Rightarrow> iter_state" where
  "closing_close s =
     (if it_status s = Suspended
      then s\<lparr>it_status := Finished, it_trace := it_trace s @ [EvCloseUnawaited]\<rparr>
      else s\<lparr>it_status := Finished\<rparr>)"

text \<open>Driving the coroutine \<open>to_frame(chunk)\<close> to completion: one page fetch.\<close>

definition drive :: "error + page \<Rightarrow> iter_state \<Rightarrow> (error + frame) \<times> iter_state" where
  "drive chunk s =
     (let res = to_frame (it_columns s) chunk (it_local s)
      in (fst res, s\<lparr>it_local := snd res, it_trace := it_trace s @ [EvFetch (it_maxRows s)]\<rparr>))"

text \<open>
  A consumer of the sequence, \<open>for co in gen: data = yield from co\<close>, that stops after
  at most \<open>n\<close> items: the frames it received, the exception that ended it if any, and
  the final state. Leaving the loop early, or by an exception of a page fetch, drops
  the generator, which is then finalised.
\<close>

fun consume :: "nat \<Rightarrow> iter_state \<Rightarrow> frame list \<times> error option \<times> iter_state" where
  "consume 0 s = ([], None, closing_close s)"
| "consume (Suc n) s =
     (case closing_next s of
        (None, s1) \<Rightarrow> ([], None, s1)
      | (Some chunk, s1) \<Rightarrow>
          (case drive chunk s1 of
             (Inl e, s2) \<Rightarrow> ([], Some e, closing_close s2)
           | (Inr data, s2) \<Rightarrow>
               (case consume n s2 of (ds, res) \<Rightarrow> (data # ds, res))))"

section \<open>\<open>SyncedHive.iter\<close>\<close>

text \<open>
  The loop of the blocking iterator over the generator it got from \<open>AioHive.iter\<close>:
  each chunk is run to completion and yielded unless \<open>data.empty\<close>. \<open>n\<close> bounds the
  number of chunks taken before the caller stops iterating.
\<close>

fun synced_loop :: "nat \<Rightarrow> iter_state \<Rightarrow> frame list \<times> error option \<times> iter_state" where
  "synced_loop 0 s = ([], None, closing_close s)"
| "synced_loop (Suc n) s =
     (case closing_next s of
        (None, s1) \<Rightarrow> ([], None, s1)
      | (Some chunk, s1) \<Rightarrow>
          (case drive chunk s1 of
             (Inl e, s2) \<Rightarrow> ([], Some e, closing_close s2)
           | (Inr data, s2) \<Rightarrow>
               (case synced_loop n s2 of
                  (ds, res) \<Rightarrow> (if \<not> frame_empty data then data # ds else ds, res))))"

text \<open>
  \<open>SyncedHive.iter\<close>: the tables yielded to the caller, the exception that ended the
  iteration if any, and the events on the cursor.
\<close>

definition SyncedHive_iter ::
  "nat \<Rightarrow> remote \<Rightarrow> string \<Rightarrow> int \<Rightarrow> frame list \<times> error option \<times> event list" where
  "SyncedHive_iter n r hql chunk_size =
     (case AioHive_iter r hql chunk_size of
        Inl (tr, e) \<Rightarrow> ([], Some e, tr)
      | Inr s \<Rightarrow> (case synced_loop n s of (ds, err, s') \<Rightarrow> (ds, err, it_trace s')))"

section \<open>Notions used to state the properties\<close>

text \<open>The page fetches among the events of a call.\<close>

definition fetches :: "event list \<Rightarrow> event list" where
  "fetches tr = filter (\<lambda>ev. case ev of EvFetch n \<Rightarrow> True | _ \<Rightarrow> False) tr"

text \<open>
  The values \<open>local\<close> can take during one invocation of \<open>iter\<close> whose columns are
  \<open>cols\<close>: the initial one, and what any run of \<open>to_frame\<close> leaves behind.
\<close>

inductive local_reach :: "string list \<Rightarrow> local \<Rightarrow> bool" for cols :: "string list" where
  init: "local_reach cols \<lparr>local_offset = 0, local_empty = None\<rparr>"
| step: "local_reach cols l \<Longrightarrow> local_reach cols (snd (to_frame cols chunk l))"

text \<open>The cached frame, once set, is the zero-row frame with the invocation's columns.\<close>

definition local_ok :: "string list \<Rightarrow> local \<Rightarrow> bool" where
  "local_ok cols l =
     (case local_empty l of
        None \<Rightarrow> True
      | Some t \<Rightarrow> t = \<lparr>df_columns = cols, df_index = [], df_rows = []\<rparr>)"

text \<open>The frame that holds the rows of page \<open>p\<close> with the index starting at \<open>off\<close>.\<close>

definition chunk_frame :: "string list \<Rightarrow> int \<Rightarrow> page \<Rightarrow> frame" where
  "chunk_frame cols off p =
     \<lparr>df_columns = cols,
      df_index = map (\<lambda>i. off + int i) [0..<length (page_rows p)],
      df_rows = page_rows p\<rparr>"

text \<open>
  The chunk sequence in the spec's words: the table of each page in turn, its row index
  offset by the running total \<open>k\<close> of the rows emitted before it.
\<close>

fun chunk_frames :: "string list \<Rightarrow> nat \<Rightarrow> page list \<Rightarrow> frame list" where
  "chunk_frames cols k [] = []"
| "chunk_frames cols k (p # ps) =
     chunk_frame cols (int k) p # chunk_frames cols (k + length (page_rows p)) ps"

text \<open>
  The scenario of the spec: the query \<open>SELECT * FROM t\<close> with chunk size 2 against a
  result of five rows in one column, served as pages of two, two and one row and a final
  empty page; and the state of \<open>iter\<close> right after its construction for it.
\<close>

definition five_rows :: remote where
  "five_rows =
     \<lparr>on_cursor = None, on_execute = None, on_getSchema = Inr [Some ''a''],
      on_fetch = [Inr (Some [[IntV 10], [IntV 11]]), Inr (Some [[IntV 12], [IntV 13]]),
                  Inr (Some [[IntV 14]]), Inr (Some [])],
      on_close = None\<rparr>"

definition five_rows_start :: iter_state where
  "five_rows_start =
     \<lparr>it_columns = [''a''], it_maxRows = 2, it_chunks = on_fetch five_rows,
      it_status = NotStarted,
      it_local = \<lparr>local_offset = 0, local_empty = None\<rparr>,
      it_trace = [EvCursor, EvExecute ''SELECT * FROM t'', EvGetSchema]\<rparr>"

section \<open>Properties of the construction\<close>

lemma find_host_no_key:
  "Some ''hive.metastore.uris'' \<notin> fst ` set props \<Longrightarrow> find_host props = Inl ValueError"
  by (induction props) auto

lemma find_host_first_key:
  "Some ''hive.metastore.uris'' \<notin> fst ` set pre \<Longrightarrow>
   find_host (pre @ (Some ''hive.metastore.uris'', Some uri) # post)
     = Inr (StrV (host_of_uri uri))"
  by (induction pre) auto




text \<open>
  Claim C7. When a configuration resource is given (\<open>config\<close> is truthy) and none of
  its property elements is named \<open>hive.metastore.uris\<close>, the constructor raises:
  \<open>ValueError\<close> from the \<open>else\<close> branch of the loop, or \<open>TypeError\<close> from the guard
  when a truthy host came with it. In both cases \<open>aiohs2.Client\<close> is not reached.
\<close>

theorem init_missing_uris:
  "truthy config \<Longrightarrow> ET_parse config = Inr props \<Longrightarrow>
   Some ''hive.metastore.uris'' \<notin> fst ` set props \<Longrightarrow>
   AioHive_init ET_parse host config port
     = Inl (if truthy host then TypeError else ValueError)"
  by (cases config) (auto simp: AioHive_init_def find_host_no_key)

theorem init_missing_uris_witness:
  "AioHive_init (\<lambda>c. Inr [(Some ''hive.metastore.warehouse.dir'', Some ''/warehouse'')])
     NoneV (StrV ''hive-site.xml'') (IntV 10000)
   = Inl ValueError"
  using init_missing_uris
    [where config = "StrV ''hive-site.xml''"
       and ET_parse = "\<lambda>c. Inr [(Some ''hive.metastore.warehouse.dir'', Some ''/warehouse'')]"
       and props = "[(Some ''hive.metastore.warehouse.dir'', Some ''/warehouse'')]"
       and host = NoneV and port = "IntV 10000"]
  by simp

text \<open>
  Claim C9. With a configuration resource whose first \<open>hive.metastore.uris\<close> property
  holds \<open>uri\<close>, and a host that is supplied (not \<open>None\<close>): the guard rejects the call
  exactly when the host is truthy; a falsy host (\<open>''\<close>, \<open>0\<close>) passes, and the client is
  built for the host extracted from \<open>uri\<close>, not for the host argument.
\<close>

theorem init_falsy_host:
  "host \<noteq> NoneV \<Longrightarrow> truthy config \<Longrightarrow>
   ET_parse config = Inr (pre @ (Some ''hive.metastore.uris'', Some uri) # post) \<Longrightarrow>
   Some ''hive.metastore.uris'' \<notin> fst ` set pre \<Longrightarrow>
   AioHive_init ET_parse host config port =
     (if truthy host then Inl TypeError
      else Inr \<lparr>cli_host = StrV (host_of_uri uri), cli_port = port\<rparr>)"
  by (cases config) (auto simp: AioHive_init_def find_host_first_key)

theorem init_falsy_host_witness:
  "AioHive_init
     (\<lambda>c. Inr [(Some ''fs.defaultFS'', Some ''hdfs://nn1''),
                (Some ''hive.metastore.uris'', Some ''thrift://meta1:9083'')])
     (IntV 0) (StrV ''hive-site.xml'') (IntV 10000)
   = Inr \<lparr>cli_host = StrV ''meta1'', cli_port = IntV 10000\<rparr>"
  using init_falsy_host
    [where host = "IntV 0" and config = "StrV ''hive-site.xml''"
       and ET_parse = "\<lambda>c. Inr [(Some ''fs.defaultFS'', Some ''hdfs://nn1''),
                (Some ''hive.metastore.uris'', Some ''thrift://meta1:9083'')]"
       and pre = "[(Some ''fs.defaultFS'', Some ''hdfs://nn1'')]"
       and uri = "''thrift://meta1:9083''" and post = "[]" and port = "IntV 10000"]
  by (simp add: host_of_uri_def str_split_def)

section \<open>Properties of \<open>execute\<close> and \<open>fetch\<close>\<close>

lemma execute_schema_trace:
  "fst (execute_schema r hql) = [EvExecute hql] \<or>
   fst (execute_schema r hql) = [EvExecute hql, EvGetSchema]"
  by (simp add: execute_schema_def split: option.splits sum.splits)

lemma execute_lifecycle:
  "count_list (fst (AioHive_execute r q)) EvCursor = 1 \<and>
   (case on_cursor r of
      Some e \<Rightarrow>
        snd (AioHive_execute r q) = Inl e \<and> EvClose \<notin> set (fst (AioHive_execute r q))
    | None \<Rightarrow>
        count_list (fst (AioHive_execute r q)) EvClose = 1 \<and>
        last (fst (AioHive_execute r q)) = EvClose \<and>
        snd (AioHive_execute r q) =
          (case on_close r of Some e' \<Rightarrow> Inl e' | None \<Rightarrow> snd (execute_body r q)))"
  by (simp add: AioHive_execute_def finally_close_def execute_body_def Let_def
      split: option.splits)

lemma fetch_body_trace:
  "\<exists>tr. fst (fetch_body r hql n) = EvExecute hql # tr \<and> set tr \<subseteq> {EvGetSchema, EvFetch n}"
  using execute_schema_trace [of r hql]
  by (auto simp: fetch_body_def split: prod.splits sum.splits)

lemma fetch_lifecycle:
  "count_list (fst (AioHive_fetch r hql n)) EvCursor = 1 \<and>
   (case on_cursor r of
      Some e \<Rightarrow>
        snd (AioHive_fetch r hql n) = Inl e \<and> EvClose \<notin> set (fst (AioHive_fetch r hql n))
    | None \<Rightarrow>
        count_list (fst (AioHive_fetch r hql n)) EvClose = 1 \<and>
        last (fst (AioHive_fetch r hql n)) = EvClose \<and>
        snd (AioHive_fetch r hql n) =
          (case on_close r of Some e' \<Rightarrow> Inl e' | None \<Rightarrow> snd (fetch_body r hql n)))"
proof -
  obtain tr where tr: "fst (fetch_body r hql n) = EvExecute hql # tr"
    and sub: "set tr \<subseteq> {EvGetSchema, EvFetch n}"
    using fetch_body_trace by blast
  have c1: "count_list tr EvCursor = 0" and c2: "count_list tr EvClose = 0"
    using sub by (auto simp: count_list_0_iff)
  show ?thesis
    using tr c1 c2
    by (simp add: AioHive_fetch_def finally_close_def Let_def split: option.splits)
qed

lemma execute_outcome:
  assumes "on_cursor r = None" "on_close r = None"
  shows "on_execute r = Some e \<Longrightarrow> snd (AioHive_execute r q) = Inl e"
    "on_execute r = None \<Longrightarrow> snd (AioHive_execute r q) = Inr ()"
  using assms by (simp_all add: AioHive_execute_def finally_close_def execute_body_def)

lemma fetch_outcome:
  assumes "on_cursor r = None" "on_close r = None"
  shows "on_execute r = Some e \<Longrightarrow> snd (AioHive_fetch r q n) = Inl e"
    "on_execute r = None \<Longrightarrow> on_getSchema r = Inl e \<Longrightarrow> snd (AioHive_fetch r q n) = Inl e"
    "on_execute r = None \<Longrightarrow> on_getSchema r = Inr schema \<Longrightarrow> column_names schema = Inl e \<Longrightarrow>
     snd (AioHive_fetch r q n) = Inl e"
    "on_execute r = None \<Longrightarrow> on_getSchema r = Inr schema \<Longrightarrow> column_names schema = Inr cols \<Longrightarrow>
     on_fetch r = Inl e # rest \<Longrightarrow> snd (AioHive_fetch r q n) = Inl e"
    "on_execute r = None \<Longrightarrow> on_getSchema r = Inr schema \<Longrightarrow> column_names schema = Inr cols \<Longrightarrow>
     on_fetch r = Inr p # rest \<Longrightarrow>
     snd (AioHive_fetch r q n) = Inr (DataFrame (page_or p NoData) cols)"
    "on_execute r = None \<Longrightarrow> on_getSchema r = Inr schema \<Longrightarrow> column_names schema = Inr cols \<Longrightarrow>
     on_fetch r = [] \<Longrightarrow> snd (AioHive_fetch r q n) = Inr (DataFrame NoData cols)"
  using assms
  by (simp_all add: AioHive_fetch_def finally_close_def fetch_body_def execute_schema_def
      first_fetch_def)

lemma close_error_outcome:
  assumes "on_cursor r = None" "on_close r = Some e'"
  shows "snd (AioHive_execute r q) = Inl e'" "snd (AioHive_fetch r q n) = Inl e'"
  using assms by (simp_all add: AioHive_execute_def AioHive_fetch_def finally_close_def)

text \<open>
  Claim C5, as amended. \<open>execute\<close> and \<open>fetch\<close> call \<open>cli.cursor()\<close> exactly once. If
  that call raises, its exception is the result and there is no cursor to close.
  Otherwise the close is run exactly once, as the last operation on the cursor,
  whether the \<open>try\<close> block returned or raised. When the close raises, the caller gets
  the exception of the close. When the close returns normally, the caller gets the
  exception raised by the remote execute, by the schema retrieval, by the column lookup
  or by the page fetch, whichever came first, and otherwise the value: nothing for
  \<open>execute\<close>, the table of the first page for \<open>fetch\<close>.
\<close>

theorem execute_fetch_cursor_lifecycle:
  "(count_list (fst (AioHive_execute r q)) EvCursor = 1 \<and>
    (case on_cursor r of
       Some e \<Rightarrow>
         snd (AioHive_execute r q) = Inl e \<and> EvClose \<notin> set (fst (AioHive_execute r q))
     | None \<Rightarrow>
         count_list (fst (AioHive_execute r q)) EvClose = 1 \<and>
         last (fst (AioHive_execute r q)) = EvClose \<and>
         snd (AioHive_execute r q) =
           (case on_close r of Some e' \<Rightarrow> Inl e' | None \<Rightarrow> snd (execute_body r q)))) \<and>
   (count_list (fst (AioHive_fetch r q n)) EvCursor = 1 \<and>
    (case on_cursor r of
       Some e \<Rightarrow>
         snd (AioHive_fetch r q n) = Inl e \<and> EvClose \<notin> set (fst (AioHive_fetch r q n))
     | None \<Rightarrow>
         count_list (fst (AioHive_fetch r q n)) EvClose = 1 \<and>
         last (fst (AioHive_fetch r q n)) = EvClose \<and>
         snd (AioHive_fetch r q n) =
           (case on_close r of Some e' \<Rightarrow> Inl e' | None \<Rightarrow> snd (fetch_body r q n)))) \<and>
   (on_cursor r = None \<longrightarrow>
      (\<forall>e'. on_close r = Some e' \<longrightarrow>
         snd (AioHive_execute r q) = Inl e' \<and> snd (AioHive_fetch r q n) = Inl e') \<and>
      (on_close r = None \<longrightarrow>
         (\<forall>e. on_execute r = Some e \<longrightarrow>
            snd (AioHive_execute r q) = Inl e \<and> snd (AioHive_fetch r q n) = Inl e) \<and>
         (on_execute r = None \<longrightarrow>
            snd (AioHive_execute r q) = Inr () \<and>
            (\<forall>e. on_getSchema r = Inl e \<longrightarrow> snd (AioHive_fetch r q n) = Inl e) \<and>
            (\<forall>schema. on_getSchema r = Inr schema \<longrightarrow>
               (\<forall>e. column_names schema = Inl e \<longrightarrow> snd (AioHive_fetch r q n) = Inl e) \<and>
               (\<forall>cols. column_names schema = Inr cols \<longrightarrow>
                  (\<forall>e rest. on_fetch r = Inl e # rest \<longrightarrow>
                     snd (AioHive_fetch r q n) = Inl e) \<and>
                  (\<forall>p rest. on_fetch r = Inr p # rest \<longrightarrow>
                     snd (AioHive_fetch r q n) = Inr (DataFrame (page_or p NoData) cols)) \<and>
                  (on_fetch r = [] \<longrightarrow>
                     snd (AioHive_fetch r q n) = Inr (DataFrame NoData cols)))))))"
  using execute_lifecycle [of r q] fetch_lifecycle [of r q n]
  by (intro conjI impI allI)
     (simp_all add: execute_outcome fetch_outcome close_error_outcome)

text \<open>
  Two instances with a close that succeeds: the execute call of the server fails with
  error 1, and the page fetch fails with error 3. The cursor is closed once, last, and
  the caller gets the error of the failing call.
\<close>

theorem execute_fetch_cursor_lifecycle_witness:
  "AioHive_execute
     \<lparr>on_cursor = None, on_execute = Some (ExternalError 1), on_getSchema = Inr [],
      on_fetch = [], on_close = None\<rparr> ''DROP TABLE t''
     = ([EvCursor, EvExecute ''DROP TABLE t'', EvClose], Inl (ExternalError 1)) \<and>
   snd (AioHive_fetch
     \<lparr>on_cursor = None, on_execute = Some (ExternalError 1), on_getSchema = Inr [],
      on_fetch = [], on_close = None\<rparr> ''DROP TABLE t'' 2) = Inl (ExternalError 1) \<and>
   last (fst (AioHive_fetch
     \<lparr>on_cursor = None, on_execute = Some (ExternalError 1), on_getSchema = Inr [],
      on_fetch = [], on_close = None\<rparr> ''DROP TABLE t'' 2)) = EvClose \<and>
   AioHive_fetch
     \<lparr>on_cursor = None, on_execute = None, on_getSchema = Inr [Some ''a''],
      on_fetch = [Inl (ExternalError 3)], on_close = None\<rparr> ''SELECT * FROM t'' 2
     = ([EvCursor, EvExecute ''SELECT * FROM t'', EvGetSchema, EvFetch 2, EvClose],
        Inl (ExternalError 3))"
  using execute_fetch_cursor_lifecycle
    [of "\<lparr>on_cursor = None, on_execute = Some (ExternalError 1), on_getSchema = Inr [],
      on_fetch = [], on_close = None\<rparr>" "''DROP TABLE t''" 2]
    execute_fetch_cursor_lifecycle
    [of "\<lparr>on_cursor = None, on_execute = None, on_getSchema = Inr [Some ''a''],
      on_fetch = [Inl (ExternalError 3)], on_close = None\<rparr>" "''SELECT * FROM t''" 2]
  by (simp add: AioHive_execute_def AioHive_fetch_def finally_close_def execute_body_def
      fetch_body_def execute_schema_def first_fetch_def)

text \<open>
  Claim C5 as stated fails where the close raises too: the execute call fails with
  error 1, the close in the \<open>finally\<close> block fails with error 2, and the caller of
  \<open>execute\<close> gets error 2, not the original error.
\<close>

theorem execute_close_masks_counterexample:
  "snd (AioHive_execute
     \<lparr>on_cursor = None, on_execute = Some (ExternalError 1), on_getSchema = Inr [],
      on_fetch = [], on_close = Some (ExternalError 2)\<rparr> ''DROP TABLE t'')
     = Inl (ExternalError 2) \<and>
   snd (AioHive_execute
     \<lparr>on_cursor = None, on_execute = Some (ExternalError 1), on_getSchema = Inr [],
      on_fetch = [], on_close = Some (ExternalError 2)\<rparr> ''DROP TABLE t'')
     \<noteq> Inl (ExternalError 1)"
  by (simp add: AioHive_execute_def finally_close_def execute_body_def)

lemma DataFrame_page_or_NoData:
  "DataFrame (page_or p NoData) cols =
     \<lparr>df_columns = cols, df_index = map int [0..<length (page_rows p)],
      df_rows = page_rows p\<rparr>"
  by (cases "(p, NoData)" rule: page_or.cases) (simp_all add: DataFrame_def)

lemma fetch_one_page:
  "length (fetches (fst (AioHive_fetch r hql n))) \<le> 1"
  by (auto simp: AioHive_fetch_def finally_close_def fetch_body_def execute_schema_def
      fetches_def Let_def split: option.splits sum.splits prod.splits)

lemma fetch_result:
  assumes "on_cursor r = None" "on_execute r = None" "on_getSchema r = Inr schema"
    "column_names schema = Inr columns" "first_fetch r = Inr p" "on_close r = None"
  shows "AioHive_fetch r hql n =
     ([EvCursor, EvExecute hql, EvGetSchema, EvFetch n, EvClose],
      Inr \<lparr>df_columns = columns, df_index = map int [0..<length (page_rows p)],
           df_rows = page_rows p\<rparr>)"
  using assms
  by (simp add: AioHive_fetch_def finally_close_def fetch_body_def execute_schema_def
      DataFrame_page_or_NoData Let_def)

text \<open>
  Claim C3. \<open>fetch\<close> never performs more than one page fetch. When no remote call
  raises, it performs exactly one, with \<open>maxRows = chunk_size\<close>, and returns the table
  of that first page alone under the schema's columns, whatever further pages the
  cursor holds: a zero-row table when the page is empty or absent.
\<close>

theorem fetch_first_page_only:
  assumes "on_cursor r = None" "on_execute r = None" "on_getSchema r = Inr schema"
    "column_names schema = Inr columns" "first_fetch r = Inr p" "on_close r = None"
  shows "length (fetches (fst (AioHive_fetch r hql n))) \<le> 1 \<and>
    AioHive_fetch r hql n =
     ([EvCursor, EvExecute hql, EvGetSchema, EvFetch n, EvClose],
      Inr \<lparr>df_columns = columns, df_index = map int [0..<length (page_rows p)],
           df_rows = page_rows p\<rparr>)"
  using fetch_one_page [of r hql n] fetch_result [OF assms, of hql n] by blast

text \<open>
  An instance: a result of five rows served in pages of two. \<open>fetch\<close> returns the
  first two rows only.
\<close>

theorem fetch_first_page_only_witness:
  "AioHive_fetch
     \<lparr>on_cursor = None, on_execute = None, on_getSchema = Inr [Some ''a''],
      on_fetch = [Inr (Some [[IntV 10], [IntV 11]]), Inr (Some [[IntV 12], [IntV 13]]),
                  Inr (Some [[IntV 14]]), Inr (Some [])],
      on_close = None\<rparr> ''SELECT * FROM t'' 2
   = ([EvCursor, EvExecute ''SELECT * FROM t'', EvGetSchema, EvFetch 2, EvClose],
      Inr \<lparr>df_columns = [''a''], df_index = [0, 1], df_rows = [[IntV 10], [IntV 11]]\<rparr>)"
  using fetch_first_page_only
    [where r = "\<lparr>on_cursor = None, on_execute = None, on_getSchema = Inr [Some ''a''],
      on_fetch = [Inr (Some [[IntV 10], [IntV 11]]), Inr (Some [[IntV 12], [IntV 13]]),
                  Inr (Some [[IntV 14]]), Inr (Some [])],
      on_close = None\<rparr>"
       and schema = "[Some ''a'']" and columns = "[''a'']"
       and p = "Some [[IntV 10], [IntV 11]]" and hql = "''SELECT * FROM t''" and n = 2]
  by (simp add: first_fetch_def upt_rec)

section \<open>Properties of the chunk sequence\<close>

lemma to_frame_columns:
  "to_frame cols chunk l = (Inr d, l') \<Longrightarrow> df_columns d = cols"
  by (auto simp: to_frame_def DataFrame_def index_add_def Let_def
      split: sum.splits data.splits)

lemma to_frame_error:
  "to_frame cols (Inl e) l = (Inl e, l)"
  by (simp add: to_frame_def)

lemma to_frame_ok:
  assumes "local_ok cols l"
  shows "to_frame cols (Inr p) l =
     (Inr (chunk_frame cols (local_offset l) p),
      \<lparr>local_offset = local_offset l + int (length (page_rows p)),
       local_empty = Some \<lparr>df_columns = cols, df_index = [], df_rows = []\<rparr>\<rparr>)"
proof (cases "(p, NoData)" rule: page_or.cases)
  case (1 alt)
  then show ?thesis using assms
    by (cases l) (auto simp: to_frame_def local_ok_def DataFrame_def index_add_def frame_len_def slice0_def chunk_frame_def Let_def split: option.splits)
next
  case (2 alt)
  then show ?thesis using assms
    by (cases l) (auto simp: to_frame_def local_ok_def DataFrame_def index_add_def frame_len_def slice0_def chunk_frame_def Let_def split: option.splits)
next
  case (3 r rs alt)
  then show ?thesis using assms
    by (cases l) (auto simp: to_frame_def local_ok_def DataFrame_def index_add_def frame_len_def slice0_def chunk_frame_def Let_def add.commute split: option.splits)
qed

lemma local_ok_step:
  "local_ok cols l \<Longrightarrow> local_ok cols (snd (to_frame cols chunk l))"
  by (cases chunk) (simp_all add: to_frame_error to_frame_ok, simp add: local_ok_def)

lemma local_reach_ok: "local_reach cols l \<Longrightarrow> local_ok cols l"
  by (induction rule: local_reach.induct) (simp add: local_ok_def, rule local_ok_step)

lemma closing_close_fields:
  "it_columns (closing_close s) = it_columns s"
  "it_maxRows (closing_close s) = it_maxRows s"
  "it_local (closing_close s) = it_local s"
  "it_status (closing_close s) = Finished"
  "it_trace (closing_close s) =
     it_trace s @ (if it_status s = Suspended then [EvCloseUnawaited] else [])"
  by (simp_all add: closing_close_def)

lemma closing_next_None:
  assumes "closing_next s = (None, s1)"
  shows "it_columns s1 = it_columns s" "it_maxRows s1 = it_maxRows s"
    "it_local s1 = it_local s" "it_status s1 = Finished"
    "it_trace s1 = it_trace s @ (if it_status s = Finished then [] else [EvCloseUnawaited])"
    "it_status s \<noteq> Finished \<Longrightarrow> it_chunks s = []"
  using assms by (auto simp: closing_next_def split: if_splits list.splits)

lemma closing_next_Some:
  assumes "closing_next s = (Some chunk, s1)"
  shows "it_columns s1 = it_columns s" "it_maxRows s1 = it_maxRows s"
    "it_local s1 = it_local s" "it_status s1 = Suspended"
    "it_trace s1 = it_trace s" "it_chunks s = chunk # it_chunks s1"
    "it_status s \<noteq> Finished"
  using assms by (auto simp: closing_next_def split: if_splits list.splits)

lemma drive_fields:
  assumes "drive chunk s = (res, s2)"
  shows "it_columns s2 = it_columns s" "it_maxRows s2 = it_maxRows s"
    "it_status s2 = it_status s" "it_chunks s2 = it_chunks s"
    "it_trace s2 = it_trace s @ [EvFetch (it_maxRows s)]"
    "to_frame (it_columns s) chunk (it_local s) = (res, it_local s2)"
  using assms by (auto simp: drive_def Let_def)

lemma consume_trace:
  "consume n s = (ds, err, s') \<Longrightarrow>
   it_columns s' = it_columns s \<and> it_maxRows s' = it_maxRows s \<and> it_status s' = Finished \<and>
   (\<exists>tr. it_trace s' = it_trace s @ tr \<and> set tr \<subseteq> {EvFetch (it_maxRows s), EvCloseUnawaited}) \<and>
   (\<forall>d \<in> set ds. df_columns d = it_columns s)"
proof (induction n arbitrary: s ds err s')
  case 0
  then show ?case by (auto simp: closing_close_fields)
next
  case (Suc n)
  obtain o1 s1 where cn: "closing_next s = (o1, s1)" by (cases "closing_next s")
  show ?case
  proof (cases o1)
    case None
    with cn Suc.prems show ?thesis
      using closing_next_None [of s s1] by auto
  next
    case (Some chunk)
    note nx = closing_next_Some [OF cn [unfolded Some]]
    obtain res s2 where dr: "drive chunk s1 = (res, s2)" by (cases "drive chunk s1")
    note df = drive_fields [OF dr]
    show ?thesis
    proof (cases res)
      case (Inl e)
      with cn Some dr Suc.prems have "ds = []" "s' = closing_close s2" by auto
      then show ?thesis using nx df by (auto simp: closing_close_fields)
    next
      case (Inr d)
      obtain ds2 err2 s3 where rec: "consume n s2 = (ds2, err2, s3)"
        by (cases "consume n s2") auto
      with cn Some dr Inr Suc.prems have eq: "ds = d # ds2" "err = err2" "s' = s3" by auto
      from Suc.IH [OF rec] obtain tr where
        ih: "it_columns s3 = it_columns s2" "it_maxRows s3 = it_maxRows s2"
          "it_status s3 = Finished" "it_trace s3 = it_trace s2 @ tr"
          "set tr \<subseteq> {EvFetch (it_maxRows s2), EvCloseUnawaited}"
          "\<forall>d \<in> set ds2. df_columns d = it_columns s2"
        by blast
      have dc: "df_columns d = it_columns s"
        using df(6) Inr nx(1) to_frame_columns by metis
      have tr: "it_trace s' = it_trace s @ (EvFetch (it_maxRows s) # tr)"
        using eq ih nx df by simp
      have "set (EvFetch (it_maxRows s) # tr) \<subseteq> {EvFetch (it_maxRows s), EvCloseUnawaited}"
        using ih nx df by auto
      with tr have "\<exists>tr. it_trace s' = it_trace s @ tr \<and>
          set tr \<subseteq> {EvFetch (it_maxRows s), EvCloseUnawaited}" by blast
      then show ?thesis using eq ih nx df dc by auto
    qed
  qed
qed

lemma shifted_upt: "map (\<lambda>i. int k + int i) [0..<m] = map int [k..<k + m]"
proof -
  have "map int [k..<k + m] = map int (map (\<lambda>i. i + k) [0..<m])"
    by (simp only: map_add_upt add.commute)
  then show ?thesis by (simp add: o_def add.commute)
qed

lemma synced_loop_consume:
  "synced_loop n s =
     (case consume n s of (ds, res) \<Rightarrow> (filter (\<lambda>d. \<not> frame_empty d) ds, res))"
  by (induction n arbitrary: s)
     (auto split: prod.splits option.splits sum.splits)

lemma upt_split3: "[k..<k + (a + b)] = [k..<k + a] @ [k + a..<k + a + (b::nat)]"
  using upt_add_eq_append [of k "k + a" b] by (simp add: add.assoc)

lemma closing_next_empty:
  "it_status s \<noteq> Finished \<Longrightarrow> it_chunks s = [] \<Longrightarrow>
   closing_next s = (None, s\<lparr>it_status := Finished, it_trace := it_trace s @ [EvCloseUnawaited]\<rparr>)"
  by (simp add: closing_next_def)

lemma closing_next_chunk:
  "it_status s \<noteq> Finished \<Longrightarrow> it_chunks s = chunk # rest \<Longrightarrow>
   closing_next s = (Some chunk, s\<lparr>it_status := Suspended, it_chunks := rest\<rparr>)"
  by (simp add: closing_next_def)

lemma consume_all:
  assumes "it_status s \<noteq> Finished" "it_chunks s = map Inr pages"
    "local_ok (it_columns s) (it_local s)" "local_offset (it_local s) = int k"
    "length pages < n"
  shows "\<exists>ds s'. consume n s = (ds, None, s') \<and>
      map df_rows ds = map page_rows pages \<and>
      concat (map df_index ds) = map int [k..<k + length (concat (map page_rows pages))] \<and>
      it_trace s' =
        it_trace s @ replicate (length pages) (EvFetch (it_maxRows s)) @ [EvCloseUnawaited]"
  using assms
proof (induction pages arbitrary: s k n)
  case Nil
  then obtain m where n: "n = Suc m" by (cases n) auto
  have "closing_next s =
      (None, s\<lparr>it_status := Finished, it_trace := it_trace s @ [EvCloseUnawaited]\<rparr>)"
    using Nil.prems(1,2) by (simp add: closing_next_empty)
  then have "consume n s =
      ([], None, s\<lparr>it_status := Finished, it_trace := it_trace s @ [EvCloseUnawaited]\<rparr>)"
    unfolding n by simp
  then show ?case by simp
next
  case (Cons p ps)
  then obtain m where n: "n = Suc m" and m: "length ps < m" by (cases n) auto
  define s1 where "s1 = s\<lparr>it_status := Suspended, it_chunks := map Inr ps\<rparr>"
  define d where "d = chunk_frame (it_columns s) (int k) p"
  define l2 where "l2 = \<lparr>local_offset = int (k + length (page_rows p)),
       local_empty = Some \<lparr>df_columns = it_columns s, df_index = [], df_rows = []\<rparr>\<rparr>"
  define s2 where "s2 = s1\<lparr>it_local := l2, it_trace := it_trace s @ [EvFetch (it_maxRows s)]\<rparr>"
  have cn: "closing_next s = (Some (Inr p), s1)"
    unfolding s1_def using Cons.prems(1,2) by (simp add: closing_next_chunk)
  have tf: "to_frame (it_columns s) (Inr p) (it_local s) = (Inr d, l2)"
    using to_frame_ok [OF Cons.prems(3), of p] Cons.prems(4) by (simp add: d_def l2_def)
  have dr: "drive (Inr p) s1 = (Inr d, s2)"
    using tf by (simp add: drive_def s1_def s2_def)
  have pre: "it_status s2 \<noteq> Finished" "it_chunks s2 = map Inr ps"
    "local_ok (it_columns s2) (it_local s2)"
    "local_offset (it_local s2) = int (k + length (page_rows p))"
    by (simp_all add: s2_def s1_def l2_def local_ok_def)
  from Cons.IH [OF pre m] obtain ds s' where
    rec: "consume m s2 = (ds, None, s')"
    and rows: "map df_rows ds = map page_rows ps"
    and idx: "concat (map df_index ds) =
        map int [k + length (page_rows p)..<
          k + length (page_rows p) + length (concat (map page_rows ps))]"
    and tr: "it_trace s' =
        it_trace s2 @ replicate (length ps) (EvFetch (it_maxRows s2)) @ [EvCloseUnawaited]"
    by blast
  have c: "consume n s = (d # ds, None, s')"
    unfolding n by (simp add: cn dr rec)
  have di: "df_index d = map int [k..<k + length (page_rows p)]"
    by (simp add: d_def chunk_frame_def shifted_upt)
  have i2: "concat (map df_index (d # ds)) =
      map int [k..<k + length (concat (map page_rows (p # ps)))]"
    by (simp add: di idx upt_split3)
  have r2: "map df_rows (d # ds) = map page_rows (p # ps)"
    using rows by (simp add: d_def chunk_frame_def)
  have t2: "it_trace s' = it_trace s @
      replicate (length (p # ps)) (EvFetch (it_maxRows s)) @ [EvCloseUnawaited]"
    using tr by (simp add: s2_def s1_def)
  show ?case using c i2 r2 t2 by blast
qed

lemma chunk_frames_length: "length (chunk_frames cols k pages) = length pages"
  by (induction pages arbitrary: k) simp_all

lemma chunk_frames_columns: "d \<in> set (chunk_frames cols k pages) \<Longrightarrow> df_columns d = cols"
  by (induction pages arbitrary: k) (auto simp: chunk_frame_def)

lemma chunk_frames_rows: "map df_rows (chunk_frames cols k pages) = map page_rows pages"
  by (induction pages arbitrary: k) (simp_all add: chunk_frame_def)

lemma chunk_frames_index:
  "concat (map df_index (chunk_frames cols k pages)) =
     map int [k..<k + length (concat (map page_rows pages))]"
proof (induction pages arbitrary: k)
  case Nil
  show ?case by simp
next
  case (Cons p ps)
  have "df_index (chunk_frame cols (int k) p) = map int [k..<k + length (page_rows p)]"
    by (simp add: chunk_frame_def shifted_upt)
  then show ?case by (simp add: Cons.IH upt_split3)
qed

lemma chunk_frames_no_rows:
  "concat (map page_rows pages) = [] \<Longrightarrow> d \<in> set (chunk_frames cols k pages) \<Longrightarrow>
   df_index d = []"
  by (induction pages arbitrary: k) (auto simp: chunk_frame_def)

lemma consume_prefix:
  "it_status s \<noteq> Finished \<Longrightarrow> it_chunks s = map Inr pages \<Longrightarrow>
   local_ok (it_columns s) (it_local s) \<Longrightarrow> local_offset (it_local s) = int k \<Longrightarrow>
   fst (consume n s) = take n (chunk_frames (it_columns s) k pages)"
proof (induction n arbitrary: s k pages)
  case 0
  show ?case by simp
next
  case (Suc n)
  show ?case
  proof (cases pages)
    case Nil
    then show ?thesis using Suc.prems by (simp add: closing_next_empty)
  next
    case (Cons p ps)
    define s1 where "s1 = s\<lparr>it_status := Suspended, it_chunks := map Inr ps\<rparr>"
    define d where "d = chunk_frame (it_columns s) (int k) p"
    define l2 where "l2 = \<lparr>local_offset = int (k + length (page_rows p)),
       local_empty = Some \<lparr>df_columns = it_columns s, df_index = [], df_rows = []\<rparr>\<rparr>"
    define s2 where
      "s2 = s1\<lparr>it_local := l2, it_trace := it_trace s @ [EvFetch (it_maxRows s)]\<rparr>"
    have cn: "closing_next s = (Some (Inr p), s1)"
      unfolding s1_def using Suc.prems(1,2) Cons by (simp add: closing_next_chunk)
    have tf: "to_frame (it_columns s) (Inr p) (it_local s) = (Inr d, l2)"
      using to_frame_ok [OF Suc.prems(3), of p] Suc.prems(4) by (simp add: d_def l2_def)
    have dr: "drive (Inr p) s1 = (Inr d, s2)"
      using tf by (simp add: drive_def s1_def s2_def)
    have pre: "it_status s2 \<noteq> Finished" "it_chunks s2 = map Inr ps"
      "local_ok (it_columns s2) (it_local s2)"
      "local_offset (it_local s2) = int (k + length (page_rows p))"
      by (simp_all add: s2_def s1_def l2_def local_ok_def)
    have cols: "it_columns s2 = it_columns s" by (simp add: s2_def s1_def)
    have "fst (consume n s2) =
        take n (chunk_frames (it_columns s) (k + length (page_rows p)) ps)"
      using Suc.IH [OF pre] cols by simp
    then show ?thesis
      by (auto simp: cn dr Cons d_def split: prod.splits)
  qed
qed

lemma iter_init:
  assumes "AioHive_iter r hql C = Inr s"
  shows "on_cursor r = None" "on_execute r = None"
    "\<exists>schema. on_getSchema r = Inr schema \<and> column_names schema = Inr (it_columns s)"
    "it_trace s = [EvCursor, EvExecute hql, EvGetSchema]"
    "it_status s = NotStarted" "it_chunks s = on_fetch r" "it_maxRows s = C"
    "it_local s = \<lparr>local_offset = 0, local_empty = None\<rparr>"
  using assms
  by (auto simp: AioHive_iter_def execute_schema_def
      split: option.splits sum.splits prod.splits)

lemma pd_concat_nonempty:
  "ds \<noteq> [] \<Longrightarrow>
   pd_concat ds = Inr \<lparr>df_columns = df_columns (hd ds),
     df_index = concat (map df_index ds), df_rows = concat (map df_rows ds)\<rparr>"
  by (cases ds) simp_all

lemma iter_init_ok:
  assumes "AioHive_iter r hql C = Inr s"
  shows "it_status s \<noteq> Finished" "local_ok (it_columns s) (it_local s)"
    "local_offset (it_local s) = int 0"
  using iter_init [OF assms] by (simp_all add: local_ok_def)

text \<open>
  Claim C2. When the construction succeeds and every page fetch succeeds, a consumer
  that takes the chunks in order until the sequence ends receives one table per page,
  each holding that page's rows under the schema's columns, with its index offset by
  the number of rows emitted before it. Concatenated in order they are the table of
  all rows of the result: the same columns, the same rows, and the row index
  \<open>0, 1, ..., N - 1\<close>. This holds for every chunk size and for every way the cursor
  cuts the result into pages, empty or absent pages included.
\<close>

theorem chunks_concat_full:
  assumes "AioHive_iter r hql C = Inr s" "on_fetch r = map Inr pages" "pages \<noteq> []"
    "length pages < n"
  shows "\<exists>s'. consume n s = (chunk_frames (it_columns s) 0 pages, None, s') \<and>
     pd_concat (chunk_frames (it_columns s) 0 pages) =
       Inr (DataFrame (RowData (concat (map page_rows pages))) (it_columns s)) \<and>
     concat (map df_index (chunk_frames (it_columns s) 0 pages)) =
       map int [0..<length (concat (map page_rows pages))]"
proof -
  let ?cols = "it_columns s" and ?fs = "chunk_frames (it_columns s) 0 pages"
  have ch: "it_chunks s = map Inr pages"
    using iter_init(6) [OF assms(1)] assms(2) by simp
  note ok = iter_init_ok [OF assms(1)]
  obtain ds s' where c: "consume n s = (ds, None, s')"
    using consume_all [OF ok(1) ch ok(2) ok(3) assms(4)] by blast
  have "fst (consume n s) = take n ?fs"
    using consume_prefix [OF ok(1) ch ok(2) ok(3)] .
  then have ds: "ds = ?fs"
    using c assms(4) by (simp add: chunk_frames_length)
  have ne: "?fs \<noteq> []"
    using assms(3) chunk_frames_length [of ?cols 0 pages] by auto
  then have hd: "df_columns (hd ?fs) = ?cols"
    using chunk_frames_columns [of "hd ?fs" ?cols 0 pages] by simp
  have idx: "concat (map df_index ?fs) = map int [0..<length (concat (map page_rows pages))]"
    using chunk_frames_index [of ?cols 0 pages] by simp
  have "pd_concat ?fs =
      Inr (DataFrame (RowData (concat (map page_rows pages))) ?cols)"
    by (simp add: pd_concat_nonempty [OF ne] hd idx chunk_frames_rows DataFrame_def)
  then show ?thesis using c ds idx by blast
qed

text \<open>
  Claim C8. In one invocation of \<open>iter\<close> whose construction succeeds, and for a consumer
  that takes any number of chunks: the events start with the cursor, the execute and
  the one schema retrieval; everything after that is a page fetch or the call of
  \<open>cur.close\<close>, so the schema is fetched exactly once and before any page; the columns
  are the names of that schema, and every table produced carries exactly them.
\<close>

theorem schema_once_columns_stable:
  assumes "AioHive_iter r hql C = Inr s" "consume n s = (ds, err, s')"
  shows "count_list (it_trace s') EvGetSchema = 1 \<and>
    (\<exists>tr. it_trace s' = [EvCursor, EvExecute hql, EvGetSchema] @ tr \<and>
          set tr \<subseteq> {EvFetch C, EvCloseUnawaited}) \<and>
    (\<exists>schema. on_getSchema r = Inr schema \<and> column_names schema = Inr (it_columns s)) \<and>
    (\<forall>d \<in> set ds. df_columns d = it_columns s)"
proof -
  note i = iter_init [OF assms(1)]
  from consume_trace [OF assms(2)] obtain tr where
    tr: "it_trace s' = it_trace s @ tr"
    and sub: "set tr \<subseteq> {EvFetch (it_maxRows s), EvCloseUnawaited}"
    and cols: "\<forall>d \<in> set ds. df_columns d = it_columns s"
    by blast
  have "count_list tr EvGetSchema = 0"
    using sub by (auto simp: count_list_0_iff)
  then have "count_list (it_trace s') EvGetSchema = 1"
    by (simp add: tr i(4))
  moreover have "it_trace s' = [EvCursor, EvExecute hql, EvGetSchema] @ tr \<and>
      set tr \<subseteq> {EvFetch C, EvCloseUnawaited}"
    using tr sub i(4) i(7) by simp
  ultimately show ?thesis using i(3) cols by blast
qed

lemma local_reach_fresh:
  "local_reach cols l \<Longrightarrow> local_empty l = None \<Longrightarrow> local_offset l = 0"
proof (induction rule: local_reach.induct)
  case init
  show ?case by simp
next
  case (step l chunk)
  show ?case
  proof (cases chunk)
    case (Inl e)
    with step show ?thesis by (simp add: to_frame_error)
  next
    case (Inr p)
    with step.prems to_frame_ok [OF local_reach_ok [OF step.hyps], of p]
    show ?thesis by simp
  qed
qed

text \<open>
  Claim C10. At any point of one invocation of \<open>iter\<close>, a page whose fetch succeeds is
  turned into the table of its rows, indexed from the running offset, and the offset
  grows by the number of its rows. If no table was produced before (\<open>local.empty\<close> is
  \<open>None\<close>, the offset is 0), the zero-row slice of this table becomes the cached
  template, whether or not the table is empty. If a template is cached it stays the
  same, and for an empty or absent page the table produced is that template. An empty
  or absent page gives a zero-row table and leaves the offset unchanged.
\<close>

theorem empty_template_cached:
  assumes "local_reach cols l" "to_frame cols (Inr p) l = (res, l')"
  shows "\<exists>d. res = Inr d \<and> d = chunk_frame cols (local_offset l) p \<and>
     local_offset l' = local_offset l + int (length (page_rows p)) \<and>
     (local_empty l = None \<longrightarrow> local_offset l = 0 \<and> local_empty l' = Some (slice0 d)) \<and>
     (\<forall>t. local_empty l = Some t \<longrightarrow>
          local_empty l' = Some t \<and> (page_rows p = [] \<longrightarrow> d = t)) \<and>
     (page_rows p = [] \<longrightarrow> local_offset l' = local_offset l \<and> frame_len d = 0)"
proof -
  note ok = local_reach_ok [OF assms(1)]
  have r: "res = Inr (chunk_frame cols (local_offset l) p)"
    and l': "l' = \<lparr>local_offset = local_offset l + int (length (page_rows p)),
       local_empty = Some \<lparr>df_columns = cols, df_index = [], df_rows = []\<rparr>\<rparr>"
    using to_frame_ok [OF ok, of p] assms(2) by simp_all
  have fresh: "local_empty l = None \<longrightarrow> local_offset l = 0"
    using local_reach_fresh [OF assms(1)] by blast
  have sl: "slice0 (chunk_frame cols (local_offset l) p) =
      \<lparr>df_columns = cols, df_index = [], df_rows = []\<rparr>"
    by (simp add: slice0_def chunk_frame_def)
  have tmpl: "\<forall>t. local_empty l = Some t \<longrightarrow>
      t = \<lparr>df_columns = cols, df_index = [], df_rows = []\<rparr>"
    using ok by (auto simp: local_ok_def)
  have zero: "page_rows p = [] \<longrightarrow> chunk_frame cols (local_offset l) p =
      \<lparr>df_columns = cols, df_index = [], df_rows = []\<rparr>"
    by (simp add: chunk_frame_def)
  show ?thesis
    using r l' fresh sl tmpl zero by (auto simp: frame_len_def)
qed

text \<open>
  Claim C4. Every table that \<open>SyncedHive.iter\<close> yields has at least one row. What it
  yields is, in order, the tables of the underlying sequence that are not
  \<open>data.empty\<close>; nothing is yielded when the construction fails. When the pages of the
  result hold no row at all, no table is yielded.
\<close>

theorem synced_iter_skips_empty:
  assumes "SyncedHive_iter n r hql C = (ys, err, tr)"
  shows "(\<forall>d \<in> set ys. 0 < frame_len d) \<and>
    (case AioHive_iter r hql C of
       Inl x \<Rightarrow> ys = []
     | Inr s \<Rightarrow> ys = filter (\<lambda>d. \<not> frame_empty d) (fst (consume n s))) \<and>
    (\<forall>pages. on_fetch r = map Inr pages \<and> concat (map page_rows pages) = [] \<longrightarrow> ys = [])"
proof (cases "AioHive_iter r hql C")
  case (Inl x)
  with assms show ?thesis by (auto simp: SyncedHive_iter_def split: prod.splits)
next
  case (Inr s)
  have ys: "ys = filter (\<lambda>d. \<not> frame_empty d) (fst (consume n s))"
    using assms Inr
    by (auto simp: SyncedHive_iter_def synced_loop_consume split: prod.splits)
  then have pos: "\<forall>d \<in> set ys. 0 < frame_len d"
    by (auto simp: frame_empty_def frame_len_def)
  have "ys = []" if ch: "on_fetch r = map Inr pages"
    and z: "concat (map page_rows pages) = []" for pages
  proof -
    note ok = iter_init_ok [OF Inr]
    have "it_chunks s = map Inr pages" using iter_init(6) [OF Inr] ch by simp
    then have "fst (consume n s) = take n (chunk_frames (it_columns s) 0 pages)"
      using consume_prefix [OF ok(1) _ ok(2) ok(3)] by blast
    then have "\<forall>d \<in> set (fst (consume n s)). df_index d = []"
      using chunk_frames_no_rows [OF z] by (auto dest: in_set_takeD)
    then show ?thesis using ys by (auto simp: frame_empty_def filter_empty_conv)
  qed
  then show ?thesis using ys pos Inr by auto
qed

section \<open>The scenario of the spec\<close>

lemma five_rows_iter:
  "AioHive_iter five_rows ''SELECT * FROM t'' 2 = Inr five_rows_start"
  by (simp add: AioHive_iter_def execute_schema_def five_rows_def five_rows_start_def)

lemma five_rows_pages:
  "on_fetch five_rows =
     map Inr [Some [[IntV 10], [IntV 11]], Some [[IntV 12], [IntV 13]], Some [[IntV 14]], Some []]"
  by (simp add: five_rows_def)

theorem chunks_concat_full_witness:
  "fst (consume 5 five_rows_start) =
     [\<lparr>df_columns = [''a''], df_index = [0, 1], df_rows = [[IntV 10], [IntV 11]]\<rparr>,
      \<lparr>df_columns = [''a''], df_index = [2, 3], df_rows = [[IntV 12], [IntV 13]]\<rparr>,
      \<lparr>df_columns = [''a''], df_index = [4], df_rows = [[IntV 14]]\<rparr>,
      \<lparr>df_columns = [''a''], df_index = [], df_rows = []\<rparr>] \<and>
   pd_concat (fst (consume 5 five_rows_start)) =
     Inr \<lparr>df_columns = [''a''], df_index = [0, 1, 2, 3, 4],
          df_rows = [[IntV 10], [IntV 11], [IntV 12], [IntV 13], [IntV 14]]\<rparr>"
proof -
  have n: "length [Some [[IntV 10], [IntV 11]], Some [[IntV 12], [IntV 13]],
      Some [[IntV 14]], Some ([] :: row list)] < 5" by simp
  from chunks_concat_full [OF five_rows_iter five_rows_pages _ n]
  show ?thesis
    by (auto simp: five_rows_start_def chunk_frame_def DataFrame_def)
qed

theorem schema_once_columns_stable_witness:
  "count_list (it_trace (snd (snd (consume 2 five_rows_start)))) EvGetSchema = 1 \<and>
   it_trace (snd (snd (consume 2 five_rows_start))) =
     [EvCursor, EvExecute ''SELECT * FROM t'', EvGetSchema, EvFetch 2, EvFetch 2,
      EvCloseUnawaited] \<and>
   map df_columns (fst (consume 2 five_rows_start)) = [[''a''], [''a'']]"
proof -
  have c: "consume 2 five_rows_start =
      (fst (consume 2 five_rows_start), fst (snd (consume 2 five_rows_start)),
       snd (snd (consume 2 five_rows_start)))" by simp
  have e: "consume 2 five_rows_start =
     ([\<lparr>df_columns = [''a''], df_index = [0, 1], df_rows = [[IntV 10], [IntV 11]]\<rparr>,
       \<lparr>df_columns = [''a''], df_index = [2, 3], df_rows = [[IntV 12], [IntV 13]]\<rparr>],
      None,
      \<lparr>it_columns = [''a''], it_maxRows = 2,
       it_chunks = [Inr (Some [[IntV 14]]), Inr (Some [])],
       it_status = Finished,
       it_local = \<lparr>local_offset = 4,
          local_empty = Some \<lparr>df_columns = [''a''], df_index = [], df_rows = []\<rparr>\<rparr>,
       it_trace = [EvCursor, EvExecute ''SELECT * FROM t'', EvGetSchema, EvFetch 2,
          EvFetch 2, EvCloseUnawaited]\<rparr>)"
    by (simp add: numeral_2_eq_2 five_rows_start_def five_rows_def closing_next_def
        closing_close_def drive_def to_frame_def DataFrame_def index_add_def frame_len_def
        slice0_def Let_def)
  from schema_once_columns_stable [OF five_rows_iter c]
  show ?thesis by (simp add: e)
qed

theorem empty_template_cached_witness:
  "to_frame [''a''] (Inr (Some [])) \<lparr>local_offset = 0, local_empty = None\<rparr> =
     (Inr \<lparr>df_columns = [''a''], df_index = [], df_rows = []\<rparr>,
      \<lparr>local_offset = 0,
       local_empty = Some \<lparr>df_columns = [''a''], df_index = [], df_rows = []\<rparr>\<rparr>) \<and>
   to_frame [''a''] (Inr None)
     (snd (to_frame [''a''] (Inr (Some [[IntV 10]])) \<lparr>local_offset = 0, local_empty = None\<rparr>)) =
     (Inr \<lparr>df_columns = [''a''], df_index = [], df_rows = []\<rparr>,
      \<lparr>local_offset = 1,
       local_empty = Some \<lparr>df_columns = [''a''], df_index = [], df_rows = []\<rparr>\<rparr>)"
proof -
  let ?l0 = "\<lparr>local_offset = 0, local_empty = None\<rparr>"
  let ?l1 = "snd (to_frame [''a''] (Inr (Some [[IntV 10]])) ?l0)"
  have r0: "local_reach [''a''] ?l0" by (rule local_reach.init)
  have r1: "local_reach [''a''] ?l1" by (rule local_reach.step [OF r0])
  have e0: "to_frame [''a''] (Inr (Some [])) ?l0 =
     (Inr \<lparr>df_columns = [''a''], df_index = [], df_rows = []\<rparr>,
      \<lparr>local_offset = 0,
       local_empty = Some \<lparr>df_columns = [''a''], df_index = [], df_rows = []\<rparr>\<rparr>)"
    by (simp add: to_frame_def DataFrame_def index_add_def frame_len_def slice0_def Let_def)
  have e1: "to_frame [''a''] (Inr None) ?l1 =
     (Inr \<lparr>df_columns = [''a''], df_index = [], df_rows = []\<rparr>,
      \<lparr>local_offset = 1,
       local_empty = Some \<lparr>df_columns = [''a''], df_index = [], df_rows = []\<rparr>\<rparr>)"
    by (simp add: to_frame_def DataFrame_def index_add_def frame_len_def slice0_def Let_def)
  from empty_template_cached [OF r0 e0] empty_template_cached [OF r1 e1]
  show ?thesis by - (rule conjI [OF e0 e1])
qed

theorem synced_iter_skips_empty_witness:
  "SyncedHive_iter 5 five_rows ''SELECT * FROM t'' 2 =
     ([\<lparr>df_columns = [''a''], df_index = [0, 1], df_rows = [[IntV 10], [IntV 11]]\<rparr>,
       \<lparr>df_columns = [''a''], df_index = [2, 3], df_rows = [[IntV 12], [IntV 13]]\<rparr>,
       \<lparr>df_columns = [''a''], df_index = [4], df_rows = [[IntV 14]]\<rparr>],
      None,
      [EvCursor, EvExecute ''SELECT * FROM t'', EvGetSchema, EvFetch 2, EvFetch 2,
       EvFetch 2, EvFetch 2, EvCloseUnawaited])"
proof -
  have e: "SyncedHive_iter 5 five_rows ''SELECT * FROM t'' 2 =
     ([\<lparr>df_columns = [''a''], df_index = [0, 1], df_rows = [[IntV 10], [IntV 11]]\<rparr>,
       \<lparr>df_columns = [''a''], df_index = [2, 3], df_rows = [[IntV 12], [IntV 13]]\<rparr>,
       \<lparr>df_columns = [''a''], df_index = [4], df_rows = [[IntV 14]]\<rparr>],
      None,
      [EvCursor, EvExecute ''SELECT * FROM t'', EvGetSchema, EvFetch 2, EvFetch 2,
       EvFetch 2, EvFetch 2, EvCloseUnawaited])"
    unfolding SyncedHive_iter_def five_rows_iter
    by (simp add: eval_nat_numeral five_rows_start_def
        five_rows_def closing_next_def closing_close_def drive_def to_frame_def
        DataFrame_def index_add_def frame_len_def slice0_def frame_empty_def Let_def)
  from synced_iter_skips_empty [OF e] show ?thesis by (simp add: e)
qed

text \<open>
  Claim C1 against the code. The \<open>finally\<close> block of \<open>closing()\<close> calls \<open>cur.close()\<close>
  without \<open>yield from\<close>, where \<open>execute\<close> and \<open>fetch\<close> run the close with
  \<open>yield from cur.close()\<close>. In the spec's scenario the close is therefore never run by
  \<open>iter\<close>: not when the consumer exhausts the sequence, not when it stops after the first
  chunk, not when a page fetch raises; and a sequence dropped before its first item does
  not even reach the call. \<open>fetch\<close> on the same cursor does run the close.
\<close>

theorem iter_close_never_run:
  "AioHive_iter five_rows ''SELECT * FROM t'' 2 = Inr five_rows_start \<and>
   it_trace (snd (snd (consume 5 five_rows_start))) =
     [EvCursor, EvExecute ''SELECT * FROM t'', EvGetSchema, EvFetch 2, EvFetch 2,
      EvFetch 2, EvFetch 2, EvCloseUnawaited] \<and>
   it_trace (snd (snd (consume 1 five_rows_start))) =
     [EvCursor, EvExecute ''SELECT * FROM t'', EvGetSchema, EvFetch 2, EvCloseUnawaited] \<and>
   it_trace (snd (snd (consume 0 five_rows_start))) =
     [EvCursor, EvExecute ''SELECT * FROM t'', EvGetSchema] \<and>
   consume 5 (five_rows_start\<lparr>it_chunks := [Inl (ExternalError 7)]\<rparr>) =
     ([], Some (ExternalError 7),
      five_rows_start\<lparr>it_chunks := [], it_status := Finished,
        it_trace := [EvCursor, EvExecute ''SELECT * FROM t'', EvGetSchema, EvFetch 2,
          EvCloseUnawaited]\<rparr>) \<and>
   fst (AioHive_fetch five_rows ''SELECT * FROM t'' 2) =
     [EvCursor, EvExecute ''SELECT * FROM t'', EvGetSchema, EvFetch 2, EvClose]"
  unfolding five_rows_iter
  by (simp add: eval_nat_numeral five_rows_start_def
        five_rows_def closing_next_def closing_close_def drive_def to_frame_def
        DataFrame_def index_add_def frame_len_def slice0_def Let_def
        AioHive_fetch_def fetch_body_def execute_schema_def finally_close_def first_fetch_def)

lemma iter_never_runs_close:
  assumes "AioHive_iter r hql C = Inr s" "consume n s = (ds, err, s')"
  shows "EvClose \<notin> set (it_trace s')"
proof -
  from consume_trace [OF assms(2)] obtain tr where
    "it_trace s' = it_trace s @ tr" "set tr \<subseteq> {EvFetch (it_maxRows s), EvCloseUnawaited}"
    by blast
  then show ?thesis using iter_init(4) [OF assms(1)] by auto
qed

lemma iter_construction_error_close_unawaited:
  "AioHive_iter r hql C = Inl (tr, e) \<Longrightarrow> EvClose \<notin> set tr"
  by (auto simp: AioHive_iter_def execute_schema_def
      split: option.splits sum.splits prod.splits)

end
